theory Spec2Isabelle
  imports Complex_Main "HOL-Library.Multiset"
begin

section \<open>Python floats\<close>

text \<open>
  The latency samples, the SLA threshold and the block rate are Python floats (IEEE-754
  binary64). A finite double is a rational number, and comparing or sorting finite doubles
  is comparing or sorting those rationals, so a float value is modelled as a \<open>rat\<close>.
  NaN and the infinities are outside the model. An arithmetic operation on floats is the
  exact operation followed by rounding to the nearest double, ties to even
  (\<open>round_double\<close>); overflow and subnormal results are outside the model (no
  computation below comes near either range).
\<close>

type_synonym py_float = rat

fun bit_length :: "nat \<Rightarrow> nat" where
  "bit_length n = (if n = 0 then 0 else Suc (bit_length (n div 2)))"

declare bit_length.simps [simp del]

text \<open>\<open>floor_log2 x\<close> is the exponent \<open>e\<close> with \<open>2^e \<le> x < 2^(e+1)\<close>, for \<open>x > 0\<close>.\<close>

definition floor_log2 :: "rat \<Rightarrow> int" where
  "floor_log2 x =
     (let (p, q) = quotient_of x;
          d = int (bit_length (nat p)) - int (bit_length (nat q))
      in if 2 powi d \<le> x then d else d - 1)"

definition round_half_even :: "rat \<Rightarrow> int" where
  "round_half_even y =
     (let f = \<lfloor>y\<rfloor>; r = y - of_int f
      in if r < 1 / 2 then f
         else if 1 / 2 < r then f + 1
         else if even f then f else f + 1)"

text \<open>Nearest double: 53 significant bits, so the unit in the last place is \<open>2^(e-52)\<close>.\<close>

definition round_double :: "rat \<Rightarrow> py_float" where
  "round_double x =
     (if x = 0 then 0
      else (let u = 2 powi (floor_log2 \<bar>x\<bar> - 52)
            in of_int (round_half_even (x / u)) * u))"

definition float_of_int :: "int \<Rightarrow> py_float" where
  "float_of_int n = round_double (of_int n)"

definition float_mul :: "py_float \<Rightarrow> py_float \<Rightarrow> py_float" where
  "float_mul a b = round_double (a * b)"

text \<open>\<open>a / b\<close> on two Python ints (true division, correctly rounded), for \<open>b \<noteq> 0\<close>.\<close>

definition int_truediv :: "int \<Rightarrow> int \<Rightarrow> py_float" where
  "int_truediv a b = round_double (of_int a / of_int b)"

text \<open>\<open>int(x)\<close> truncates towards zero.\<close>

definition py_int :: "py_float \<Rightarrow> int" where
  "py_int x = (if 0 \<le> x then \<lfloor>x\<rfloor> else - \<lfloor>- x\<rfloor>)"

text \<open>
  \<open>round(x, 2)\<close> on a float: the exact value of \<open>x\<close> rounded to two decimals, ties to
  even, and that decimal rounded to the nearest double.
\<close>

definition py_round2 :: "py_float \<Rightarrow> py_float" where
  "py_round2 x = round_double (of_int (round_half_even (x * 100)) / 100)"

section \<open>Latency tracker (simple\_backend/latency\_tracker.py)\<close>

datatype py_error = ValueError | IndexError | StatisticsError

text \<open>
  \<open>collections.deque(maxlen=n)\<close>: a negative \<open>maxlen\<close> raises \<open>ValueError\<close>;
  \<open>append\<close> adds on the right and, when the length then exceeds \<open>maxlen\<close>, drops the
  leftmost element.
\<close>

record 'a deque =
  maxlen :: nat
  items :: "'a list"

definition deque_new :: "int \<Rightarrow> py_error + 'a deque" where
  "deque_new n = (if n < 0 then Inl ValueError else Inr \<lparr>maxlen = nat n, items = []\<rparr>)"

definition deque_append :: "'a deque \<Rightarrow> 'a \<Rightarrow> 'a deque" where
  "deque_append d x =
     (let ys = items d @ [x]
      in d\<lparr>items := (if maxlen d < length ys then tl ys else ys)\<rparr>)"

definition deque_clear :: "'a deque \<Rightarrow> 'a deque" where
  "deque_clear d = d\<lparr>items := []\<rparr>"

text \<open>List indexing \<open>xs[i]\<close>: a negative index counts from the end, out of range raises.\<close>

definition getitem :: "'a list \<Rightarrow> int \<Rightarrow> py_error + 'a" where
  "getitem xs i =
     (let j = (if i < 0 then int (length xs) + i else i)
      in if 0 \<le> j \<and> j < int (length xs) then Inr (xs ! nat j) else Inl IndexError)"

text \<open>
  \<open>statistics.mean\<close> on floats is the exact mean rounded once; \<open>statistics.median\<close>
  takes the middle element of the sorted data, or \<open>(a + b) / 2\<close> in float arithmetic for
  the two middle elements. Both raise \<open>StatisticsError\<close> on empty data.
\<close>

definition statistics_mean :: "py_float list \<Rightarrow> py_error + py_float" where
  "statistics_mean xs =
     (if xs = [] then Inl StatisticsError
      else Inr (round_double (sum_list xs / of_nat (length xs))))"

definition statistics_median :: "py_float list \<Rightarrow> py_error + py_float" where
  "statistics_median xs =
     (let data = sort xs; n = length data
      in if n = 0 then Inl StatisticsError
         else if n mod 2 = 1 then Inr (data ! (n div 2))
         else (let i = n div 2
               in Inr (round_double (round_double (data ! (i - 1) + data ! i) / 2))))"

record LatencyTracker =
  window_size :: int
  sla_threshold_ms :: py_float
  latencies_ms :: "py_float deque"
  total_requests :: int
  sla_breaches :: int

text \<open>\<open>LatencyTracker.__init__(window_size, sla_threshold_ms)\<close>; the defaults are 100 and 50.0.\<close>

definition LatencyTracker_init :: "int \<Rightarrow> py_float \<Rightarrow> py_error + LatencyTracker" where
  "LatencyTracker_init ws thr =
     (case deque_new ws of
        Inl e \<Rightarrow> Inl e
      | Inr d \<Rightarrow> Inr \<lparr>window_size = ws, sla_threshold_ms = thr, latencies_ms = d,
                      total_requests = 0, sla_breaches = 0\<rparr>)"

definition record_latency :: "LatencyTracker \<Rightarrow> py_float \<Rightarrow> LatencyTracker" where
  "record_latency t latency_ms =
     (let t1 = t\<lparr>latencies_ms := deque_append (latencies_ms t) latency_ms\<rparr>;
          t2 = t1\<lparr>total_requests := total_requests t1 + 1\<rparr>
      in if sla_threshold_ms t2 < latency_ms
         then t2\<lparr>sla_breaches := sla_breaches t2 + 1\<rparr>
         else t2)"

definition get_avg_latency_ms :: "LatencyTracker \<Rightarrow> py_error + py_float" where
  "get_avg_latency_ms t =
     (if items (latencies_ms t) = [] then Inr 0
      else statistics_mean (items (latencies_ms t)))"

definition get_median_latency_ms :: "LatencyTracker \<Rightarrow> py_error + py_float" where
  "get_median_latency_ms t =
     (if items (latencies_ms t) = [] then Inr 0
      else statistics_median (items (latencies_ms t)))"

text \<open>The index expression \<open>int(len(sorted_latencies) * 0.95)\<close>, in float arithmetic.\<close>

definition p95_index :: "nat \<Rightarrow> int" where
  "p95_index n = py_int (float_mul (float_of_int (int n)) (round_double (95 / 100)))"

definition get_p95_latency_ms :: "LatencyTracker \<Rightarrow> py_error + py_float" where
  "get_p95_latency_ms t =
     (if items (latencies_ms t) = [] then Inr 0
      else (let sorted_latencies = sort (items (latencies_ms t));
                index = p95_index (length sorted_latencies)
            in if index < int (length sorted_latencies)
               then getitem sorted_latencies index
               else getitem sorted_latencies (- 1)))"

definition get_sla_status :: "LatencyTracker \<Rightarrow> py_error + string" where
  "get_sla_status t =
     (case get_avg_latency_ms t of
        Inl e \<Rightarrow> Inl e
      | Inr avg_latency \<Rightarrow>
          Inr (if avg_latency \<le> sla_threshold_ms t then ''within_sla'' else ''sla_breached''))"

definition reset :: "LatencyTracker \<Rightarrow> LatencyTracker" where
  "reset t = t\<lparr>latencies_ms := deque_clear (latencies_ms t),
              total_requests := 0, sla_breaches := 0\<rparr>"

text \<open>A sequence of \<open>record_latency\<close> calls, in order.\<close>

definition record_all :: "LatencyTracker \<Rightarrow> py_float list \<Rightarrow> LatencyTracker" where
  "record_all t xs = foldl record_latency t xs"

text \<open>
  The trackers a program can hold: a constructed one, and whatever \<open>record_latency\<close> and
  \<open>reset\<close> make of it.
\<close>

inductive reachable :: "LatencyTracker \<Rightarrow> bool" where
  fresh: "LatencyTracker_init ws thr = Inr t \<Longrightarrow> reachable t"
| recorded: "reachable t \<Longrightarrow> reachable (record_latency t x)"
| was_reset: "reachable t \<Longrightarrow> reachable (reset t)"

section \<open>Security metrics store (simple\_backend/security\_metrics\_db.py)\<close>

text \<open>
  The SQLite file is a record of its three tables. A table is the list of its rows in
  \<open>id\<close> order (the ids are \<open>AUTOINCREMENT\<close>, so a new row goes to the end and
  \<open>ORDER BY id DESC LIMIT 1\<close> is the last row). A timestamp is a number of microseconds.
  \<open>INTEGER\<close> columns are unbounded integers here.
\<close>

type_synonym timestamp = nat

record request_metrics_row =
  rm_total_requests :: int
  rm_threats_blocked :: int
  rm_threats_flagged :: int
  rm_last_updated :: timestamp

record threat_vector_row =
  tv_threat_type :: string
  tv_count :: int
  tv_last_detected :: "timestamp option"
  tv_severity :: string

record security_event_row =
  se_event_type :: string
  se_threat_type :: "string option"
  se_severity :: "string option"
  se_blocked :: bool
  se_detected_at :: timestamp

record metrics_db =
  request_metrics :: "request_metrics_row list"
  threat_vectors :: "threat_vector_row list"
  security_events :: "security_event_row list"

definition init_security_metrics_db :: "metrics_db \<Rightarrow> timestamp \<Rightarrow> metrics_db" where
  "init_security_metrics_db db now =
     (if length (request_metrics db) = 0
      then db\<lparr>request_metrics :=
                [\<lparr>rm_total_requests = 0, rm_threats_blocked = 0,
                  rm_threats_flagged = 0, rm_last_updated = now\<rparr>]\<rparr>
      else db)"

text \<open>\<open>UPDATE ... WHERE id = (SELECT id ... ORDER BY id DESC LIMIT 1)\<close>: the last row, if any.\<close>

definition update_latest :: "('a \<Rightarrow> 'a) \<Rightarrow> 'a list \<Rightarrow> 'a list" where
  "update_latest f rows = (if rows = [] then [] else butlast rows @ [f (last rows)])"

definition increment_total_requests :: "metrics_db \<Rightarrow> timestamp \<Rightarrow> metrics_db" where
  "increment_total_requests db now =
     db\<lparr>request_metrics :=
          update_latest (\<lambda>r. r\<lparr>rm_total_requests := rm_total_requests r + 1,
                                 rm_last_updated := now\<rparr>) (request_metrics db)\<rparr>"

definition increment_threats_blocked :: "metrics_db \<Rightarrow> timestamp \<Rightarrow> metrics_db" where
  "increment_threats_blocked db now =
     db\<lparr>request_metrics :=
          update_latest (\<lambda>r. r\<lparr>rm_threats_blocked := rm_threats_blocked r + 1,
                                 rm_last_updated := now\<rparr>) (request_metrics db)\<rparr>"

text \<open>
  \<open>INSERT ... VALUES (?, 1, ?, ?) ON CONFLICT(threat_type) DO UPDATE SET count = count + 1,
  last_detected = ?, severity = ?\<close>. The statement's parameters hold two readings of
  \<open>datetime.now()\<close>: the first is inserted, the second is written by the update.
\<close>

fun upsert_threat_vector ::
  "string \<Rightarrow> string \<Rightarrow> timestamp \<Rightarrow> timestamp \<Rightarrow> threat_vector_row list \<Rightarrow> threat_vector_row list"
where
  "upsert_threat_vector threat_type severity now1 now2 [] =
     [\<lparr>tv_threat_type = threat_type, tv_count = 1,
       tv_last_detected = Some now1, tv_severity = severity\<rparr>]"
| "upsert_threat_vector threat_type severity now1 now2 (r # rows) =
     (if tv_threat_type r = threat_type
      then r\<lparr>tv_count := tv_count r + 1, tv_last_detected := Some now2,
              tv_severity := severity\<rparr> # rows
      else r # upsert_threat_vector threat_type severity now1 now2 rows)"

text \<open>
  \<open>record_threat_detection(threat_type, severity, blocked)\<close>. \<open>now k\<close> is the \<open>k\<close>-th
  reading of \<open>datetime.now()\<close> during the call.
\<close>

definition record_threat_detection ::
  "metrics_db \<Rightarrow> string \<Rightarrow> string \<Rightarrow> bool \<Rightarrow> (nat \<Rightarrow> timestamp) \<Rightarrow> metrics_db"
where
  "record_threat_detection db threat_type severity blocked now =
     (let db1 = db\<lparr>threat_vectors :=
                     upsert_threat_vector threat_type severity (now 0) (now 1)
                       (threat_vectors db)\<rparr>;
          db2 = increment_total_requests db1 (now 2)
      in if blocked then increment_threats_blocked db2 (now 3) else db2)"

text \<open>
  \<open>ORDER BY count DESC\<close>: descending by count. SQL leaves the order of equal counts
  open; here equal counts keep their \<open>id\<close> order.
\<close>

definition order_by_count_desc :: "threat_vector_row list \<Rightarrow> threat_vector_row list" where
  "order_by_count_desc rows = sort_key (\<lambda>r. - tv_count r) rows"

definition get_all_threat_vectors :: "metrics_db \<Rightarrow> threat_vector_row list" where
  "get_all_threat_vectors db = order_by_count_desc (threat_vectors db)"

record top_threat =
  top_name :: string
  top_count :: int
  top_severity :: string

record metrics_summary =
  sum_total_requests :: int
  sum_threats_blocked :: int
  sum_threats_flagged :: int
  sum_block_rate :: py_float
  sum_top_threat_vector :: top_threat
  sum_all_threat_vectors :: "threat_vector_row list"
  sum_last_updated :: "timestamp option"

definition get_security_metrics_summary :: "metrics_db \<Rightarrow> metrics_summary" where
  "get_security_metrics_summary db =
     (let metrics_row = (if request_metrics db = [] then None
                         else Some (last (request_metrics db)));
          total_requests = (case metrics_row of Some r \<Rightarrow> rm_total_requests r | None \<Rightarrow> 0);
          threats_blocked = (case metrics_row of Some r \<Rightarrow> rm_threats_blocked r | None \<Rightarrow> 0);
          threats_flagged = (case metrics_row of Some r \<Rightarrow> rm_threats_flagged r | None \<Rightarrow> 0);
          last_updated = (case metrics_row of Some r \<Rightarrow> Some (rm_last_updated r) | None \<Rightarrow> None);
          top_threat_vector =
            (case take 1 (order_by_count_desc (threat_vectors db)) of
               r # _ \<Rightarrow> \<lparr>top_name = tv_threat_type r, top_count = tv_count r,
                          top_severity = tv_severity r\<rparr>
             | [] \<Rightarrow> \<lparr>top_name = ''None detected'', top_count = 0, top_severity = ''low''\<rparr>);
          threat_vectors = take 10 (order_by_count_desc (threat_vectors db));
          block_rate = (if 0 < total_requests
                        then float_mul (int_truediv threats_blocked (max total_requests 1)) 100
                        else 0)
      in \<lparr>sum_total_requests = total_requests,
          sum_threats_blocked = threats_blocked,
          sum_threats_flagged = threats_flagged,
          sum_block_rate = py_round2 block_rate,
          sum_top_threat_vector = top_threat_vector,
          sum_all_threat_vectors = threat_vectors,
          sum_last_updated = last_updated\<rparr>)"

definition reset_metrics :: "metrics_db \<Rightarrow> timestamp \<Rightarrow> metrics_db" where
  "reset_metrics db now =
     db\<lparr>request_metrics :=
          map (\<lambda>r. r\<lparr>rm_total_requests := 0, rm_threats_blocked := 0,
                       rm_threats_flagged := 0, rm_last_updated := now\<rparr>) (request_metrics db),
        threat_vectors := [],
        security_events := []\<rparr>"

text \<open>The row of one threat type, and a run of detections of one threat type.\<close>

definition find_vector :: "string \<Rightarrow> metrics_db \<Rightarrow> threat_vector_row option" where
  "find_vector threat_type db = find (\<lambda>r. tv_threat_type r = threat_type) (threat_vectors db)"

fun record_detections ::
  "metrics_db \<Rightarrow> string \<Rightarrow> (string \<times> bool \<times> (nat \<Rightarrow> timestamp)) list \<Rightarrow> metrics_db"
where
  "record_detections db threat_type [] = db"
| "record_detections db threat_type ((severity, blocked, now) # calls) =
     record_detections (record_threat_detection db threat_type severity blocked now)
       threat_type calls"

text \<open>The three counters of the latest \<open>request_metrics\<close> row, if there is one.\<close>

definition counters :: "metrics_db \<Rightarrow> (int \<times> int \<times> int) option" where
  "counters db =
     (if request_metrics db = [] then None
      else Some (rm_total_requests (last (request_metrics db)),
                 rm_threats_blocked (last (request_metrics db)),
                 rm_threats_flagged (last (request_metrics db))))"

text \<open>
  A database file before \<open>init_security_metrics_db\<close> has run, and a run of detections
  of several threat types with the default arguments \<open>severity="medium"\<close>,
  \<open>blocked=True\<close>, every clock reading being \<open>t\<close>.
\<close>

definition empty_metrics_db :: metrics_db where
  "empty_metrics_db = \<lparr>request_metrics = [], threat_vectors = [], security_events = []\<rparr>"

definition at_time :: "timestamp \<Rightarrow> nat \<Rightarrow> timestamp" where
  "at_time t k = t"

fun record_defaults :: "metrics_db \<Rightarrow> timestamp \<Rightarrow> string list \<Rightarrow> metrics_db" where
  "record_defaults db t [] = db"
| "record_defaults db t (threat_type # types) =
     record_defaults (record_threat_detection db threat_type ''medium'' True (at_time t)) t types"

section \<open>Login (backend/app/routers/auth.py)\<close>

text \<open>
  The tables of backend/app/models.py, each the list of its rows in insertion order.
  Times are microseconds since the epoch, UTC.
\<close>

record User =
  u_id :: int
  u_username :: string
  u_password_hash :: string
  u_role :: string
  u_is_active :: bool
  u_created_at :: timestamp
  u_last_login :: "timestamp option"
  u_email :: "string option"
  u_full_name :: "string option"

record LoginAuditLog =
  log_user_id :: "int option"
  log_username :: string
  log_login_time :: timestamp
  log_ip_address :: string
  log_user_agent :: string
  log_success :: bool
  log_failure_reason :: "string option"
  log_session_id :: "string option"

record SecurityEvent =
  ev_event_type :: string
  ev_severity :: string
  ev_description :: string
  ev_triggered_by :: "int option"
  ev_ip_address :: string
  ev_user_agent :: string
  ev_timestamp :: timestamp
  ev_metadata :: "(string \<times> int) list option"

record auth_db =
  users :: "User list"
  login_audit_logs :: "LoginAuditLog list"
  auth_security_events :: "SecurityEvent list"

text \<open>backend/app/config.py: the two settings \<open>login\<close> reads, and their defaults.\<close>

record Settings =
  MAX_LOGIN_ATTEMPTS :: int
  JWT_ACCESS_TOKEN_EXPIRE_MINUTES :: int

definition default_settings :: Settings where
  "default_settings = \<lparr>MAX_LOGIN_ATTEMPTS = 5, JWT_ACCESS_TOKEN_EXPIRE_MINUTES = 30\<rparr>"

text \<open>
  \<open>app.security\<close> is imported by auth.py but is not among the sources, so the two
  functions \<open>login\<close> calls from it are parameters: \<open>verify_password(plain, hash)\<close> and
  \<open>create_token_pair(username, user_id, role)\<close>, which returns the access and the
  refresh token.
\<close>

record security =
  verify_password :: "string \<Rightarrow> string \<Rightarrow> bool"
  create_token_pair :: "string \<Rightarrow> int \<Rightarrow> string \<Rightarrow> string \<times> string"

text \<open>
  What one request meets outside the code: the database server's \<open>now()\<close> when the
  audit row and the event row are inserted (\<open>server_default=func.now()\<close>), the reading
  of \<open>datetime.utcnow()\<close> in \<open>login\<close>, and whether \<open>db.commit()\<close> raises for the
  audit row, the event row and the \<open>last_login\<close> update.
\<close>

record request_env =
  audit_time :: timestamp
  event_time :: timestamp
  utcnow :: timestamp
  audit_write_fails :: bool
  event_write_fails :: bool
  user_write_fails :: bool

datatype db_error = CommitFailed

record Token =
  access_token :: string
  refresh_token :: string
  token_type :: string
  expires_in :: int

text \<open>
  How a call of \<open>login\<close> ends: it returns a \<open>Token\<close>, raises
  \<open>HTTPException(status_code, detail, headers)\<close>, or an exception of \<open>db.commit()\<close>
  leaves it (nothing in auth.py catches one; the application's handler for
  \<open>Exception\<close> answers 500).
\<close>

datatype outcome =
  Returned Token
| HTTPException nat string "(string \<times> string) list option"
| Raised db_error

definition log_login_attempt ::
  "auth_db \<Rightarrow> request_env \<Rightarrow> string \<Rightarrow> bool \<Rightarrow> string \<Rightarrow> string \<Rightarrow> int option \<Rightarrow> string option
     \<Rightarrow> db_error + auth_db"
where
  "log_login_attempt db env username success ip_address user_agent user_id failure_reason =
     (let audit_log = \<lparr>log_user_id = user_id, log_username = username,
                        log_login_time = audit_time env, log_ip_address = ip_address,
                        log_user_agent = user_agent, log_success = success,
                        log_failure_reason = failure_reason, log_session_id = None\<rparr>
      in if audit_write_fails env then Inl CommitFailed
         else Inr (db\<lparr>login_audit_logs := login_audit_logs db @ [audit_log]\<rparr>))"

definition create_security_event ::
  "auth_db \<Rightarrow> request_env \<Rightarrow> string \<Rightarrow> string \<Rightarrow> string \<Rightarrow> string \<Rightarrow> string \<Rightarrow> int option
     \<Rightarrow> (string \<times> int) list option \<Rightarrow> db_error + auth_db"
where
  "create_security_event db env event_type severity description ip_address user_agent
       triggered_by metadata =
     (let event = \<lparr>ev_event_type = event_type, ev_severity = severity,
                    ev_description = description, ev_triggered_by = triggered_by,
                    ev_ip_address = ip_address, ev_user_agent = user_agent,
                    ev_timestamp = event_time env, ev_metadata = metadata\<rparr>
      in if event_write_fails env then Inl CommitFailed
         else Inr (db\<lparr>auth_security_events := auth_security_events db @ [event]\<rparr>))"

text \<open>
  \<open>t.replace(hour=0, minute=0, second=0)\<close>: the start of \<open>t\<close>'s day plus the
  microseconds of \<open>t\<close>, which \<open>replace\<close> is not asked to clear.
\<close>

definition replace_hms_zero :: "timestamp \<Rightarrow> timestamp" where
  "replace_hms_zero t = t - t mod 86400000000 + t mod 1000000"

text \<open>
  The query \<open>db.query(LoginAuditLog).filter(username == ..., success == False,
  login_time >= ...).count()\<close>.
\<close>

definition recent_failures_count :: "auth_db \<Rightarrow> string \<Rightarrow> timestamp \<Rightarrow> int" where
  "recent_failures_count db username now =
     int (length (filter (\<lambda>l. log_username l = username \<and> log_success l = False
                              \<and> replace_hms_zero now \<le> log_login_time l)
                    (login_audit_logs db)))"

text \<open>The row \<open>.first()\<close> returned is the one an attribute assignment and commit updates.\<close>

fun update_first :: "('a \<Rightarrow> bool) \<Rightarrow> ('a \<Rightarrow> 'a) \<Rightarrow> 'a list \<Rightarrow> 'a list" where
  "update_first P f [] = []"
| "update_first P f (x # xs) = (if P x then f x # xs else x # update_first P f xs)"

text \<open>
  backend/app/schemas.py, \<open>UserLogin\<close>: the route hands \<open>login\<close> only credentials
  whose username has 3 to 50 characters and whose password has 6 to 100; anything else is
  answered 422 before \<open>login\<close> runs.
\<close>

definition UserLogin_valid :: "string \<Rightarrow> string \<Rightarrow> bool" where
  "UserLogin_valid username password =
     (3 \<le> length username \<and> length username \<le> 50
      \<and> 6 \<le> length password \<and> length password \<le> 100)"

definition invalid_credentials :: outcome where
  "invalid_credentials =
     HTTPException 401 ''Invalid credentials'' (Some [(''WWW-Authenticate'', ''Bearer'')])"

text \<open>
  \<open>login(credentials, request, db)\<close>. \<open>ip_address\<close> and \<open>user_agent\<close> are what
  \<open>get_client_info(request)\<close> extracts. The result is how the call ends and the
  database it leaves.
\<close>

definition login ::
  "security \<Rightarrow> Settings \<Rightarrow> auth_db \<Rightarrow> request_env \<Rightarrow> string \<Rightarrow> string \<Rightarrow> string \<Rightarrow> string
     \<Rightarrow> outcome \<times> auth_db"
where
  "login sec settings db env username password ip_address user_agent =
     (case find (\<lambda>u. u_username u = username) (users db) of
        None \<Rightarrow>
          (case log_login_attempt db env username False ip_address user_agent None
                  (Some ''User not found'') of
             Inl e \<Rightarrow> (Raised e, db)
           | Inr db1 \<Rightarrow>
               (case create_security_event db1 env ''suspicious_login'' ''low''
                       (''Login attempt for non-existent user: '' @ username)
                       ip_address user_agent None None of
                  Inl e \<Rightarrow> (Raised e, db1)
                | Inr db2 \<Rightarrow> (invalid_credentials, db2)))
      | Some user \<Rightarrow>
          if \<not> u_is_active user then
            (case log_login_attempt db env username False ip_address user_agent
                    (Some (u_id user)) (Some ''Account inactive'') of
               Inl e \<Rightarrow> (Raised e, db)
             | Inr db1 \<Rightarrow>
                 (case create_security_event db1 env ''suspicious_login'' ''medium''
                         (''Login attempt for inactive account: '' @ username)
                         ip_address user_agent (Some (u_id user)) None of
                    Inl e \<Rightarrow> (Raised e, db1)
                  | Inr db2 \<Rightarrow> (HTTPException 403 ''Account is inactive'' None, db2)))
          else if \<not> verify_password sec password (u_password_hash user) then
            (case log_login_attempt db env username False ip_address user_agent
                    (Some (u_id user)) (Some ''Invalid password'') of
               Inl e \<Rightarrow> (Raised e, db)
             | Inr db1 \<Rightarrow>
                 (let recent_failures = recent_failures_count db1 username (utcnow env)
                  in if MAX_LOGIN_ATTEMPTS settings \<le> recent_failures then
                       (case create_security_event db1 env ''brute_force_attempt'' ''high''
                               (''Multiple failed login attempts detected for user: '' @ username)
                               ip_address user_agent (Some (u_id user))
                               (Some [(''failed_attempts'', recent_failures + 1)]) of
                          Inl e \<Rightarrow> (Raised e, db1)
                        | Inr db2 \<Rightarrow> (invalid_credentials, db2))
                     else (invalid_credentials, db1)))
          else
            (let tokens = create_token_pair sec (u_username user) (u_id user) (u_role user)
             in if user_write_fails env then (Raised CommitFailed, db)
                else
                  (let db1 = db\<lparr>users := update_first (\<lambda>u. u_username u = username)
                                             (\<lambda>u. u\<lparr>u_last_login := Some (utcnow env)\<rparr>)
                                             (users db)\<rparr>
                   in case log_login_attempt db1 env username True ip_address user_agent
                             (Some (u_id user)) None of
                        Inl e \<Rightarrow> (Raised e, db1)
                      | Inr db2 \<Rightarrow>
                          (Returned \<lparr>access_token = fst tokens, refresh_token = snd tokens,
                                     token_type = ''bearer'',
                                     expires_in = JWT_ACCESS_TOKEN_EXPIRE_MINUTES settings * 60\<rparr>,
                           db2))))"

text \<open>
  The result of the credential check alone: what \<open>login\<close> answers when every write of
  the call succeeds.
\<close>

definition credential_outcome :: "security \<Rightarrow> Settings \<Rightarrow> auth_db \<Rightarrow> string \<Rightarrow> string \<Rightarrow> outcome" where
  "credential_outcome sec settings db username password =
     (case find (\<lambda>u. u_username u = username) (users db) of
        None \<Rightarrow> invalid_credentials
      | Some user \<Rightarrow>
          if \<not> u_is_active user then HTTPException 403 ''Account is inactive'' None
          else if \<not> verify_password sec password (u_password_hash user) then invalid_credentials
          else Returned \<lparr>access_token = fst (create_token_pair sec (u_username user) (u_id user) (u_role user)),
                         refresh_token = snd (create_token_pair sec (u_username user) (u_id user) (u_role user)),
                         token_type = ''bearer'',
                         expires_in = JWT_ACCESS_TOKEN_EXPIRE_MINUTES settings * 60\<rparr>)"

text \<open>
  Concrete inputs for evaluating \<open>login\<close>: an instance of the two \<open>app.security\<close>
  parameters that accepts a password equal to the stored string and hands out two fixed
  token strings, a database with one active account and no audit rows, a request
  environment in which every write succeeds, and a run of attempts with the same
  credentials, one per environment.
\<close>

definition plain_verify :: "string \<Rightarrow> string \<Rightarrow> bool" where
  "plain_verify plain hashed = (plain = hashed)"

definition fixed_token_pair :: "string \<Rightarrow> int \<Rightarrow> string \<Rightarrow> string \<times> string" where
  "fixed_token_pair username user_id role = (''access'', ''refresh'')"

definition test_security :: security where
  "test_security = \<lparr>verify_password = plain_verify, create_token_pair = fixed_token_pair\<rparr>"

definition alice :: User where
  "alice = \<lparr>u_id = 1, u_username = ''alice'', u_password_hash = ''secret'', u_role = ''user'',
            u_is_active = True, u_created_at = 0, u_last_login = None, u_email = None,
            u_full_name = None\<rparr>"

definition alice_db :: auth_db where
  "alice_db = \<lparr>users = [alice], login_audit_logs = [], auth_security_events = []\<rparr>"

definition env_at :: "timestamp \<Rightarrow> request_env" where
  "env_at t = \<lparr>audit_time = t, event_time = t, utcnow = t, audit_write_fails = False,
               event_write_fails = False, user_write_fails = False\<rparr>"

definition failing_audit_env :: request_env where
  "failing_audit_env = (env_at 0)\<lparr>audit_write_fails := True\<rparr>"

definition failing_event_env :: request_env where
  "failing_event_env = (env_at 0)\<lparr>event_write_fails := True\<rparr>"

fun attempts ::
  "security \<Rightarrow> Settings \<Rightarrow> auth_db \<Rightarrow> string \<Rightarrow> string \<Rightarrow> request_env list \<Rightarrow> auth_db"
where
  "attempts sec settings db username password [] = db"
| "attempts sec settings db username password (env # envs) =
     attempts sec settings
       (snd (login sec settings db env username password ''10.0.0.1'' ''agent''))
       username password envs"

definition brute_force_events :: "auth_db \<Rightarrow> SecurityEvent list" where
  "brute_force_events db =
     filter (\<lambda>e. ev_event_type e = ''brute_force_attempt'') (auth_security_events db)"

section \<open>Latency tracker: window and counters\<close>

lemma init_Inr:
  "LatencyTracker_init ws thr = Inr t \<Longrightarrow>
     0 \<le> ws \<and> t = \<lparr>window_size = ws, sla_threshold_ms = thr,
                     latencies_ms = \<lparr>maxlen = nat ws, items = []\<rparr>,
                     total_requests = 0, sla_breaches = 0\<rparr>"
  by (auto simp: LatencyTracker_init_def deque_new_def split: if_splits)

lemma record_latency_fields:
  "maxlen (latencies_ms (record_latency t x)) = maxlen (latencies_ms t)"
  "sla_threshold_ms (record_latency t x) = sla_threshold_ms t"
  "window_size (record_latency t x) = window_size t"
  "total_requests (record_latency t x) = total_requests t + 1"
  "sla_breaches (record_latency t x) =
     sla_breaches t + (if sla_threshold_ms t < x then 1 else 0)"
  "items (latencies_ms (record_latency t x)) =
     (if maxlen (latencies_ms t) < Suc (length (items (latencies_ms t)))
      then tl (items (latencies_ms t) @ [x]) else items (latencies_ms t) @ [x])"
  by (simp_all add: record_latency_def deque_append_def Let_def)

lemma reset_fields:
  "maxlen (latencies_ms (reset t)) = maxlen (latencies_ms t)"
  "sla_threshold_ms (reset t) = sla_threshold_ms t"
  "items (latencies_ms (reset t)) = []"
  "total_requests (reset t) = 0"
  "sla_breaches (reset t) = 0"
  by (simp_all add: reset_def deque_clear_def)

lemma record_all_snoc: "record_all t (xs @ [x]) = record_latency (record_all t xs) x"
  by (simp add: record_all_def)

lemma record_all_maxlen: "maxlen (latencies_ms (record_all t xs)) = maxlen (latencies_ms t)"
  by (induction xs rule: rev_induct) (simp_all add: record_all_snoc record_latency_fields record_all_def)

lemma record_all_total:
  "total_requests (record_all t xs) = total_requests t + int (length xs)"
  by (induction xs rule: rev_induct) (simp_all add: record_all_snoc record_latency_fields record_all_def)

lemma record_all_window:
  assumes "items (latencies_ms t) = []"
  shows "items (latencies_ms (record_all t xs)) = drop (length xs - maxlen (latencies_ms t)) xs"
proof (induction xs rule: rev_induct)
  case Nil
  show ?case using assms by (simp add: record_all_def)
next
  case (snoc x xs)
  let ?m = "maxlen (latencies_ms t)"
  let ?w = "drop (length xs - ?m) xs"
  have step: "items (latencies_ms (record_all t (xs @ [x]))) =
      (if ?m < Suc (length ?w) then tl (?w @ [x]) else ?w @ [x])"
    by (simp add: record_all_snoc record_latency_fields record_all_maxlen snoc.IH)
  show ?case
  proof (cases "?m < Suc (length ?w)")
    case False
    then have "length xs < ?m" by simp
    with step False show ?thesis by simp
  next
    case True
    then have full: "?m \<le> length xs" by simp
    show ?thesis
    proof (cases "?w = []")
      case True
      with full have "?m = 0" by simp
      with step \<open>?m < Suc (length ?w)\<close> show ?thesis by simp
    next
      case False
      then have "tl (?w @ [x]) = tl ?w @ [x]"
        by (cases "?w") simp_all
      then have "tl (?w @ [x]) = drop (Suc (length xs - ?m)) xs @ [x]"
        by (simp add: drop_Suc tl_drop)
      moreover have "Suc (length xs) - ?m = Suc (length xs - ?m)"
        using full by simp
      moreover have "0 < ?m"
        using False by (cases "?m = 0") simp_all
      ultimately show ?thesis using step True full by simp
    qed
  qed
qed

text \<open>
  C7. A tracker constructed with window capacity \<open>ws\<close> and then fed the samples \<open>xs\<close>
  holds the last \<open>ws\<close> of them, oldest first, and its lifetime counter
  \<open>total_requests\<close> is the number of samples recorded, whatever the capacity. With
  capacity 100 and 150 samples the window is the last 100 samples.
\<close>

theorem window_keeps_most_recent:
  assumes "LatencyTracker_init ws thr = Inr t"
  shows "items (latencies_ms (record_all t xs)) = drop (length xs - nat ws) xs
       \<and> total_requests (record_all t xs) = int (length xs)
       \<and> (ws = 100 \<and> length xs = 150 \<longrightarrow>
            items (latencies_ms (record_all t xs)) = drop 50 xs
          \<and> length (items (latencies_ms (record_all t xs))) = 100
          \<and> total_requests (record_all t xs) = 150)"
proof -
  from init_Inr [OF assms] have e: "items (latencies_ms t) = []"
    and m: "maxlen (latencies_ms t) = nat ws" and z: "total_requests t = 0"
    by auto
  have w: "items (latencies_ms (record_all t xs)) = drop (length xs - nat ws) xs"
    using record_all_window [OF e, of xs] m by simp
  have c: "total_requests (record_all t xs) = int (length xs)"
    using record_all_total [of t xs] z by simp
  show ?thesis using w c by auto
qed

theorem window_keeps_most_recent_witness:
  "LatencyTracker_init 100 50 =
     Inr \<lparr>window_size = 100, sla_threshold_ms = 50,
          latencies_ms = \<lparr>maxlen = 100, items = []\<rparr>,
          total_requests = 0, sla_breaches = 0\<rparr>
   \<and> length (map rat_of_nat [1..<151]) = 150
   \<and> items (latencies_ms (record_all
        \<lparr>window_size = 100, sla_threshold_ms = 50,
          latencies_ms = \<lparr>maxlen = 100, items = []\<rparr>,
          total_requests = 0, sla_breaches = 0\<rparr> (map rat_of_nat [1..<151])))
       = map rat_of_nat [51..<151]
   \<and> total_requests (record_all
        \<lparr>window_size = 100, sla_threshold_ms = 50,
          latencies_ms = \<lparr>maxlen = 100, items = []\<rparr>,
          total_requests = 0, sla_breaches = 0\<rparr> (map rat_of_nat [1..<151])) = 150"
proof -
  let ?t = "\<lparr>window_size = 100, sla_threshold_ms = 50,
          latencies_ms = \<lparr>maxlen = 100, items = []\<rparr>,
          total_requests = 0, sla_breaches = 0\<rparr>"
  have i: "LatencyTracker_init 100 50 = Inr ?t"
    by (simp add: LatencyTracker_init_def deque_new_def)
  have d: "drop 50 (map rat_of_nat [1..<151]) = map rat_of_nat [51..<151]"
    by (simp add: drop_map)
  show ?thesis
    using i d window_keeps_most_recent [OF i, of "map rat_of_nat [1..<151]"] by simp
qed

text \<open>
  C10. Every reachable tracker has \<open>0 \<le> sla_breaches \<le> total_requests\<close>. A
  \<open>record_latency\<close> call adds one to \<open>total_requests\<close> and adds one to
  \<open>sla_breaches\<close> exactly when the sample exceeds the threshold; \<open>reset\<close> sets both
  counters to zero.
\<close>

theorem breaches_bounded_by_requests:
  assumes "reachable t"
  shows "0 \<le> sla_breaches t \<and> sla_breaches t \<le> total_requests t
       \<and> total_requests (record_latency t x) = total_requests t + 1
       \<and> sla_breaches (record_latency t x) =
           sla_breaches t + (if sla_threshold_ms t < x then 1 else 0)
       \<and> total_requests (reset t) = 0 \<and> sla_breaches (reset t) = 0"
proof -
  have "0 \<le> sla_breaches t \<and> sla_breaches t \<le> total_requests t"
    using assms
  proof (induction rule: reachable.induct)
    case (fresh ws thr t)
    then show ?case by (auto dest: init_Inr)
  next
    case (recorded t x)
    then show ?case by (simp add: record_latency_fields)
  next
    case (was_reset t)
    show ?case by (simp add: reset_fields)
  qed
  then show ?thesis by (simp add: record_latency_fields reset_fields)
qed

theorem breaches_bounded_by_requests_witness:
  "reachable (record_latency (reset (record_latency
       \<lparr>window_size = 100, sla_threshold_ms = 50,
        latencies_ms = \<lparr>maxlen = 100, items = []\<rparr>,
        total_requests = 0, sla_breaches = 0\<rparr> 10)) 60)
   \<and> sla_breaches (record_latency (reset (record_latency
       \<lparr>window_size = 100, sla_threshold_ms = 50,
        latencies_ms = \<lparr>maxlen = 100, items = []\<rparr>,
        total_requests = 0, sla_breaches = 0\<rparr> 10)) 60) = 1
   \<and> total_requests (record_latency (reset (record_latency
       \<lparr>window_size = 100, sla_threshold_ms = 50,
        latencies_ms = \<lparr>maxlen = 100, items = []\<rparr>,
        total_requests = 0, sla_breaches = 0\<rparr> 10)) 60) = 1"
proof -
  let ?t0 = "\<lparr>window_size = 100, sla_threshold_ms = 50,
        latencies_ms = \<lparr>maxlen = 100, items = []\<rparr>,
        total_requests = 0, sla_breaches = 0\<rparr>"
  have "LatencyTracker_init 100 50 = Inr ?t0"
    by (simp add: LatencyTracker_init_def deque_new_def)
  then have "reachable ?t0" by (rule reachable.fresh)
  then have r: "reachable (record_latency (reset (record_latency ?t0 10)) 60)"
    by (intro reachable.recorded reachable.was_reset)
  have v: "sla_breaches (record_latency (reset (record_latency ?t0 10)) 60) = 1"
    "total_requests (record_latency (reset (record_latency ?t0 10)) 60) = 1"
    by (simp_all add: record_latency_fields reset_fields)
  show ?thesis using r v breaches_bounded_by_requests [OF r, of 0] by simp
qed

lemma fresh_window_empty:
  "LatencyTracker_init ws thr = Inr t \<Longrightarrow> items (latencies_ms t) = []"
  by (auto dest: init_Inr)

text \<open>
  C9 (as amended). On an empty window the average, the median and the p95 each return 0.0
  without raising, and the SLA status is decided by comparing that 0.0 with the configured
  threshold: \<open>within_sla\<close> when the threshold is not negative (the default is 50.0),
  \<open>sla_breached\<close> when it is negative. A reset tracker has an empty window.
\<close>

theorem empty_window_statistics:
  assumes "items (latencies_ms t) = []"
  shows "get_avg_latency_ms t = Inr 0
       \<and> get_median_latency_ms t = Inr 0
       \<and> get_p95_latency_ms t = Inr 0
       \<and> get_sla_status t =
           Inr (if 0 \<le> sla_threshold_ms t then ''within_sla'' else ''sla_breached'')
       \<and> items (latencies_ms (reset t')) = []"
  using assms
  by (simp add: get_avg_latency_ms_def get_median_latency_ms_def get_p95_latency_ms_def
      get_sla_status_def reset_fields)

theorem empty_window_statistics_witness:
  "items (latencies_ms \<lparr>window_size = 100, sla_threshold_ms = 50,
        latencies_ms = \<lparr>maxlen = 100, items = []\<rparr>,
        total_requests = 0, sla_breaches = 0\<rparr>) = []
   \<and> get_p95_latency_ms \<lparr>window_size = 100, sla_threshold_ms = 50,
        latencies_ms = \<lparr>maxlen = 100, items = []\<rparr>,
        total_requests = 0, sla_breaches = 0\<rparr> = Inr 0
   \<and> get_sla_status \<lparr>window_size = 100, sla_threshold_ms = 50,
        latencies_ms = \<lparr>maxlen = 100, items = []\<rparr>,
        total_requests = 0, sla_breaches = 0\<rparr> = Inr ''within_sla''"
proof -
  let ?t = "\<lparr>window_size = 100, sla_threshold_ms = 50,
        latencies_ms = \<lparr>maxlen = 100, items = []\<rparr>,
        total_requests = 0, sla_breaches = 0\<rparr>"
  have e: "items (latencies_ms ?t) = []" by simp
  show ?thesis using e empty_window_statistics [OF e, of ?t] by simp
qed

text \<open>
  C9 as stated fails for a tracker constructed with a negative SLA threshold: its window
  is empty and its status is \<open>sla_breached\<close>.
\<close>

theorem empty_window_sla_counterexample:
  "LatencyTracker_init 100 (- 1) =
     Inr \<lparr>window_size = 100, sla_threshold_ms = - 1,
          latencies_ms = \<lparr>maxlen = 100, items = []\<rparr>,
          total_requests = 0, sla_breaches = 0\<rparr>
   \<and> get_sla_status \<lparr>window_size = 100, sla_threshold_ms = - 1,
          latencies_ms = \<lparr>maxlen = 100, items = []\<rparr>,
          total_requests = 0, sla_breaches = 0\<rparr> \<noteq> Inr ''within_sla''"
  by (simp add: LatencyTracker_init_def deque_new_def get_sla_status_def
      get_avg_latency_ms_def)

section \<open>Security metrics store: upsert, summary\<close>

lemma round_double_1: "round_double 1 = 1"
  by (simp add: round_double_def floor_log2_def round_half_even_def bit_length.simps)

lemma round_double_100: "round_double 100 = 100"
  by (simp add: round_double_def floor_log2_def round_half_even_def bit_length.simps)

lemma full_block_rate: "n \<noteq> 0 \<Longrightarrow> py_round2 (float_mul (int_truediv n n) 100) = 100"
  by (simp add: py_round2_def float_mul_def int_truediv_def round_double_1 round_double_100
      round_half_even_def)

lemma counters_reset_init:
  "counters (reset_metrics (init_security_metrics_db db t0) t1) = Some (0, 0, 0)"
  by (simp add: counters_def reset_metrics_def init_security_metrics_db_def last_map)

lemma counters_record:
  "counters (record_threat_detection db ty sev blocked now) =
     (case counters db of
        None \<Rightarrow> None
      | Some (tot, blk, flg) \<Rightarrow> Some (tot + 1, (if blocked then blk + 1 else blk), flg))"
  by (simp add: counters_def record_threat_detection_def increment_total_requests_def
      increment_threats_blocked_def update_latest_def Let_def)

lemma threat_vectors_record:
  "threat_vectors (record_threat_detection db ty sev b now) =
     upsert_threat_vector ty sev (now 0) (now 1) (threat_vectors db)"
  unfolding record_threat_detection_def increment_total_requests_def
      increment_threats_blocked_def Let_def by simp

lemma threat_vectors_reset: "threat_vectors (reset_metrics db t) = []"
  by (simp add: reset_metrics_def)

lemma summary_counters:
  "counters db = Some (tot, blk, flg) \<Longrightarrow>
     sum_total_requests (get_security_metrics_summary db) = tot
   \<and> sum_threats_blocked (get_security_metrics_summary db) = blk
   \<and> sum_threats_flagged (get_security_metrics_summary db) = flg
   \<and> sum_block_rate (get_security_metrics_summary db) =
       py_round2 (if 0 < tot then float_mul (int_truediv blk (max tot 1)) 100 else 0)"
  by (auto simp: counters_def get_security_metrics_summary_def Let_def split: if_splits)

lemma summary_vectors:
  "sum_all_threat_vectors (get_security_metrics_summary db) = take 10 (get_all_threat_vectors db)"
  "sum_top_threat_vector (get_security_metrics_summary db) =
     (case get_all_threat_vectors db of
        [] \<Rightarrow> \<lparr>top_name = ''None detected'', top_count = 0, top_severity = ''low''\<rparr>
      | r # _ \<Rightarrow> \<lparr>top_name = tv_threat_type r, top_count = tv_count r, top_severity = tv_severity r\<rparr>)"
  by (simp_all add: get_security_metrics_summary_def get_all_threat_vectors_def Let_def
       split: list.splits)

lemma all_vectors_ranked:
  "sorted (map (\<lambda>r. - tv_count r) (get_all_threat_vectors db))"
  "mset (get_all_threat_vectors db) = mset (threat_vectors db)"
  by (simp_all add: get_all_threat_vectors_def order_by_count_desc_def)

lemma find_upsert:
  "find (\<lambda>r. tv_threat_type r = ty) (upsert_threat_vector ty sev n1 n2 rows) =
     (case find (\<lambda>r. tv_threat_type r = ty) rows of
        None \<Rightarrow> Some \<lparr>tv_threat_type = ty, tv_count = 1, tv_last_detected = Some n1,
                      tv_severity = sev\<rparr>
      | Some r \<Rightarrow> Some (r\<lparr>tv_count := tv_count r + 1, tv_last_detected := Some n2,
                          tv_severity := sev\<rparr>))"
  by (induction rows) auto

lemma find_vector_record:
  "find_vector ty (record_threat_detection db ty sev b now) =
     (case find_vector ty db of
        None \<Rightarrow> Some \<lparr>tv_threat_type = ty, tv_count = 1, tv_last_detected = Some (now 0),
                      tv_severity = sev\<rparr>
      | Some r \<Rightarrow> Some (r\<lparr>tv_count := tv_count r + 1, tv_last_detected := Some (now 1),
                          tv_severity := sev\<rparr>))"
  unfolding find_vector_def threat_vectors_record by (rule find_upsert)

lemma record_detections_snoc:
  "record_detections db ty (calls @ [(sev, b, now)]) =
     record_threat_detection (record_detections db ty calls) ty sev b now"
  by (induction db ty calls rule: record_detections.induct) simp_all

lemma detections_run:
  assumes "find_vector ty db = None" and "calls \<noteq> []"
  shows "\<exists>r. find_vector ty (record_detections db ty calls) = Some r
           \<and> tv_count r = int (length calls)
           \<and> tv_severity r = fst (last calls)
           \<and> tv_last_detected r =
               Some ((snd (snd (last calls))) (if length calls = 1 then 0 else 1))"
  using assms(2)
proof (induction calls rule: rev_induct)
  case Nil
  then show ?case by simp
next
  case (snoc c calls)
  obtain sev b now where c: "c = (sev, b, now)" by (cases c) auto
  show ?case
  proof (cases "calls = []")
    case True
    then show ?thesis using assms(1) c
      by (simp add: find_vector_record)
  next
    case False
    from snoc.IH [OF False] obtain r where
      r: "find_vector ty (record_detections db ty calls) = Some r"
         "tv_count r = int (length calls)" by blast
    show ?thesis using r False c
      by (simp add: record_detections_snoc find_vector_record)
  qed
qed

text \<open>
  C5. Recording a detection of a threat type that has no row inserts the row with count 1,
  the given severity and the time of the call; recording one that has a row adds one to its
  count and overwrites its severity and its last-detected time with those of this call. So
  after a run of detections of one threat type, starting without a row, the count is the
  number of calls and the severity and the time are those of the last call: the latest
  severity is kept, not the highest.
\<close>

theorem upsert_keeps_latest_severity:
  "find_vector ty (record_threat_detection db ty sev blocked now) =
     (case find_vector ty db of
        None \<Rightarrow> Some \<lparr>tv_threat_type = ty, tv_count = 1, tv_last_detected = Some (now 0),
                      tv_severity = sev\<rparr>
      | Some r \<Rightarrow> Some (r\<lparr>tv_count := tv_count r + 1, tv_last_detected := Some (now 1),
                          tv_severity := sev\<rparr>))
   \<and> (find_vector ty db = None \<and> calls \<noteq> [] \<longrightarrow>
        map_option tv_count (find_vector ty (record_detections db ty calls))
          = Some (int (length calls))
      \<and> map_option tv_severity (find_vector ty (record_detections db ty calls))
          = Some (fst (last calls))
      \<and> map_option tv_last_detected (find_vector ty (record_detections db ty calls))
          = Some (Some ((snd (snd (last calls))) (if length calls = 1 then 0 else 1))))"
proof -
  have "map_option tv_count (find_vector ty (record_detections db ty calls))
          = Some (int (length calls))
      \<and> map_option tv_severity (find_vector ty (record_detections db ty calls))
          = Some (fst (last calls))
      \<and> map_option tv_last_detected (find_vector ty (record_detections db ty calls))
          = Some (Some ((snd (snd (last calls))) (if length calls = 1 then 0 else 1)))"
    if "find_vector ty db = None" "calls \<noteq> []"
    using detections_run [OF that] by auto
  then show ?thesis by (simp add: find_vector_record)
qed

theorem upsert_keeps_latest_severity_witness:
  "find_vector ''DAN Attack'' empty_metrics_db = None
   \<and> map_option tv_count (find_vector ''DAN Attack''
        (record_detections empty_metrics_db ''DAN Attack''
           [(''critical'', True, at_time 1), (''low'', True, at_time 2)])) = Some 2
   \<and> map_option tv_severity (find_vector ''DAN Attack''
        (record_detections empty_metrics_db ''DAN Attack''
           [(''critical'', True, at_time 1), (''low'', True, at_time 2)])) = Some ''low''
   \<and> map_option tv_last_detected (find_vector ''DAN Attack''
        (record_detections empty_metrics_db ''DAN Attack''
           [(''critical'', True, at_time 1), (''low'', True, at_time 2)])) = Some (Some 2)"
proof -
  have n: "find_vector ''DAN Attack'' empty_metrics_db = None"
    by (simp add: find_vector_def empty_metrics_db_def)
  show ?thesis
    using n upsert_keeps_latest_severity [of "''DAN Attack''" empty_metrics_db "''x''" True
        "at_time 0" "[(''critical'', True, at_time 1), (''low'', True, at_time 2)]"]
    by (simp add: at_time_def)
qed

text \<open>
  C4. The summary's list is the ranked list cut to its first ten rows
  (\<open>summary_vectors\<close>, \<open>all_vectors_ranked\<close>). With eleven threat types recorded,
  \<open>get_all_threat_vectors\<close> returns eleven rows and the summary returns ten of them:
  the row of \<open>T11\<close> is missing.
\<close>

theorem summary_truncates_to_ten:
  "length (get_all_threat_vectors
      (record_defaults (reset_metrics (init_security_metrics_db empty_metrics_db 0) 0) 1
         [''T01'', ''T02'', ''T03'', ''T04'', ''T05'', ''T06'', ''T07'', ''T08'', ''T09'',
          ''T10'', ''T11''])) = 11
   \<and> map tv_threat_type (sum_all_threat_vectors (get_security_metrics_summary
      (record_defaults (reset_metrics (init_security_metrics_db empty_metrics_db 0) 0) 1
         [''T01'', ''T02'', ''T03'', ''T04'', ''T05'', ''T06'', ''T07'', ''T08'', ''T09'',
          ''T10'', ''T11'']))) =
       [''T01'', ''T02'', ''T03'', ''T04'', ''T05'', ''T06'', ''T07'', ''T08'', ''T09'', ''T10'']"
proof -
  let ?db = "record_defaults (reset_metrics (init_security_metrics_db empty_metrics_db 0) 0) 1
         [''T01'', ''T02'', ''T03'', ''T04'', ''T05'', ''T06'', ''T07'', ''T08'', ''T09'',
          ''T10'', ''T11'']"
  show ?thesis
    by (simp add: summary_vectors get_all_threat_vectors_def order_by_count_desc_def
        threat_vectors_record threat_vectors_reset at_time_def)
qed

text \<open>
  C8. From a reset store, recording \<open>("DAN Attack", "critical", True)\<close> twice and
  \<open>("Jailbreak", "high", True)\<close> once gives a summary whose top threat is
  \<open>DAN Attack\<close> with count 2, with 3 total requests, 3 threats blocked and block rate
  100.0.
\<close>

theorem dan_attack_summary:
  "top_name (sum_top_threat_vector (get_security_metrics_summary
      (record_threat_detection (record_threat_detection (record_threat_detection
         (reset_metrics (init_security_metrics_db db t0) t1)
         ''DAN Attack'' ''critical'' True now1) ''DAN Attack'' ''critical'' True now2)
         ''Jailbreak'' ''high'' True now3))) = ''DAN Attack''
 \<and> top_count (sum_top_threat_vector (get_security_metrics_summary
      (record_threat_detection (record_threat_detection (record_threat_detection
         (reset_metrics (init_security_metrics_db db t0) t1)
         ''DAN Attack'' ''critical'' True now1) ''DAN Attack'' ''critical'' True now2)
         ''Jailbreak'' ''high'' True now3))) = 2
 \<and> sum_total_requests (get_security_metrics_summary
      (record_threat_detection (record_threat_detection (record_threat_detection
         (reset_metrics (init_security_metrics_db db t0) t1)
         ''DAN Attack'' ''critical'' True now1) ''DAN Attack'' ''critical'' True now2)
         ''Jailbreak'' ''high'' True now3)) = 3
 \<and> sum_threats_blocked (get_security_metrics_summary
      (record_threat_detection (record_threat_detection (record_threat_detection
         (reset_metrics (init_security_metrics_db db t0) t1)
         ''DAN Attack'' ''critical'' True now1) ''DAN Attack'' ''critical'' True now2)
         ''Jailbreak'' ''high'' True now3)) = 3
 \<and> sum_block_rate (get_security_metrics_summary
      (record_threat_detection (record_threat_detection (record_threat_detection
         (reset_metrics (init_security_metrics_db db t0) t1)
         ''DAN Attack'' ''critical'' True now1) ''DAN Attack'' ''critical'' True now2)
         ''Jailbreak'' ''high'' True now3)) = 100"
proof -
  let ?db = "record_threat_detection (record_threat_detection (record_threat_detection
         (reset_metrics (init_security_metrics_db db t0) t1)
         ''DAN Attack'' ''critical'' True now1) ''DAN Attack'' ''critical'' True now2)
         ''Jailbreak'' ''high'' True now3"
  have c: "counters ?db = Some (3, 3, 0)"
    by (simp add: counters_record counters_reset_init)
  have v: "get_all_threat_vectors ?db =
      [\<lparr>tv_threat_type = ''DAN Attack'', tv_count = 2, tv_last_detected = Some (now2 1),
        tv_severity = ''critical''\<rparr>,
       \<lparr>tv_threat_type = ''Jailbreak'', tv_count = 1, tv_last_detected = Some (now3 0),
        tv_severity = ''high''\<rparr>]"
    unfolding get_all_threat_vectors_def threat_vectors_record threat_vectors_reset
    by (simp add: order_by_count_desc_def)
  have r: "py_round2 (float_mul (int_truediv 3 (max 3 1)) 100) = 100"
    using full_block_rate [of 3] by simp
  show ?thesis
    using summary_counters [OF c] r by (simp add: summary_vectors v)
qed

section \<open>Login: rejections, audit writes, brute-force alert\<close>

lemma login_unknown_user:
  assumes "find (\<lambda>u. u_username u = username) (users db) = None"
  shows "fst (login sec settings db env username password ip ua) =
           (if audit_write_fails env \<or> event_write_fails env
            then Raised CommitFailed else invalid_credentials)"
  using assms
  by (simp add: login_def log_login_attempt_def create_security_event_def Let_def)

lemma login_inactive:
  assumes "find (\<lambda>u. u_username u = username) (users db) = Some user" "\<not> u_is_active user"
  shows "fst (login sec settings db env username password ip ua) =
           (if audit_write_fails env \<or> event_write_fails env
            then Raised CommitFailed else HTTPException 403 ''Account is inactive'' None)"
  using assms
  by (simp add: login_def log_login_attempt_def create_security_event_def Let_def)

lemma login_wrong_password:
  assumes "find (\<lambda>u. u_username u = username) (users db) = Some user" "u_is_active user"
    "\<not> verify_password sec password (u_password_hash user)"
  shows "fst (login sec settings db env username password ip ua) =
           (if audit_write_fails env then Raised CommitFailed
            else if event_write_fails env
                  \<and> MAX_LOGIN_ATTEMPTS settings \<le>
                      recent_failures_count
                        (db\<lparr>login_audit_logs := login_audit_logs db @
                           [\<lparr>log_user_id = Some (u_id user), log_username = username,
                             log_login_time = audit_time env, log_ip_address = ip,
                             log_user_agent = ua, log_success = False,
                             log_failure_reason = Some ''Invalid password'',
                             log_session_id = None\<rparr>]\<rparr>) username (utcnow env)
                 then Raised CommitFailed
            else invalid_credentials)"
  using assms
  by (simp add: login_def log_login_attempt_def create_security_event_def Let_def)

lemma login_success:
  assumes "find (\<lambda>u. u_username u = username) (users db) = Some user" "u_is_active user"
    "verify_password sec password (u_password_hash user)"
  shows "fst (login sec settings db env username password ip ua) =
           (if user_write_fails env \<or> audit_write_fails env then Raised CommitFailed
            else credential_outcome sec settings db username password)"
  using assms
  by (simp add: login_def log_login_attempt_def credential_outcome_def Let_def)

text \<open>
  C2 (as amended). While the audit and event writes of both calls succeed, a login with a
  username that has no account and a login with the username of an active account and a
  wrong password end the same way: \<open>HTTPException\<close> with status 401, detail
  \<open>Invalid credentials\<close> and the header \<open>WWW-Authenticate: Bearer\<close>. Whatever the
  writes do, each of the two calls ends in that rejection or in the error of a failed
  write.
\<close>

theorem unknown_user_same_rejection:
  assumes "find (\<lambda>u. u_username u = unknown) (users db1) = None"
    and "find (\<lambda>u. u_username u = known) (users db2) = Some user"
    and "u_is_active user"
    and "\<not> verify_password sec wrong (u_password_hash user)"
  shows "fst (login sec settings db1 env1 unknown password ip1 ua1)
           \<in> {invalid_credentials, Raised CommitFailed}
       \<and> fst (login sec settings db2 env2 known wrong ip2 ua2)
           \<in> {invalid_credentials, Raised CommitFailed}
       \<and> (\<not> audit_write_fails env1 \<and> \<not> event_write_fails env1
          \<and> \<not> audit_write_fails env2 \<and> \<not> event_write_fails env2 \<longrightarrow>
            fst (login sec settings db1 env1 unknown password ip1 ua1) =
              HTTPException 401 ''Invalid credentials'' (Some [(''WWW-Authenticate'', ''Bearer'')])
          \<and> fst (login sec settings db2 env2 known wrong ip2 ua2) =
              fst (login sec settings db1 env1 unknown password ip1 ua1))"
  using assms
  by (simp add: login_unknown_user login_wrong_password invalid_credentials_def)

theorem unknown_user_same_rejection_witness:
  "find (\<lambda>u. u_username u = ''mallory'') (users alice_db) = None
   \<and> find (\<lambda>u. u_username u = ''alice'') (users alice_db) = Some alice
   \<and> u_is_active alice
   \<and> \<not> verify_password test_security ''guess1'' (u_password_hash alice)
   \<and> \<not> audit_write_fails (env_at 0) \<and> \<not> event_write_fails (env_at 0)
   \<and> fst (login test_security default_settings alice_db (env_at 0) ''mallory'' ''guess1''
             ''10.0.0.1'' ''agent'') =
       HTTPException 401 ''Invalid credentials'' (Some [(''WWW-Authenticate'', ''Bearer'')])
   \<and> fst (login test_security default_settings alice_db (env_at 0) ''alice'' ''guess1''
             ''10.0.0.1'' ''agent'') =
       HTTPException 401 ''Invalid credentials'' (Some [(''WWW-Authenticate'', ''Bearer'')])"
proof -
  have a: "find (\<lambda>u. u_username u = ''mallory'') (users alice_db) = None"
    by (simp add: alice_db_def alice_def)
  have b: "find (\<lambda>u. u_username u = ''alice'') (users alice_db) = Some alice"
    by (simp add: alice_db_def alice_def)
  have c: "u_is_active alice" by (simp add: alice_def)
  have d: "\<not> verify_password test_security ''guess1'' (u_password_hash alice)"
    by (simp add: test_security_def plain_verify_def alice_def)
  have e: "\<not> audit_write_fails (env_at 0)" "\<not> event_write_fails (env_at 0)"
    by (simp_all add: env_at_def)
  show ?thesis
    using a b c d e
      unknown_user_same_rejection [OF a b c d, of default_settings "env_at 0" "''guess1''"
        "''10.0.0.1''" "''agent''" "env_at 0" "''10.0.0.1''" "''agent''"]
    by simp
qed

text \<open>
  C2 as stated fails when the write of the event row fails: the login with the unknown
  username always writes an event and so ends in the error, the login with Alice's
  username and a wrong password writes none below the threshold and is rejected with 401.
  The two answers differ, in one and the same environment.
\<close>

theorem unknown_user_counterexample:
  "UserLogin_valid ''mallory'' ''guess1'' \<and> UserLogin_valid ''alice'' ''guess1''
   \<and> find (\<lambda>u. u_username u = ''mallory'') (users alice_db) = None
   \<and> fst (login test_security default_settings alice_db failing_event_env ''mallory''
            ''guess1'' ''10.0.0.1'' ''agent'') = Raised CommitFailed
   \<and> fst (login test_security default_settings alice_db failing_event_env ''alice''
            ''guess1'' ''10.0.0.1'' ''agent'') =
       HTTPException 401 ''Invalid credentials'' (Some [(''WWW-Authenticate'', ''Bearer'')])
   \<and> fst (login test_security default_settings alice_db failing_event_env ''mallory''
            ''guess1'' ''10.0.0.1'' ''agent'') \<noteq>
     fst (login test_security default_settings alice_db failing_event_env ''alice''
            ''guess1'' ''10.0.0.1'' ''agent'')"
  by (simp add: login_def log_login_attempt_def create_security_event_def
      recent_failures_count_def alice_db_def alice_def test_security_def plain_verify_def
      default_settings_def failing_event_env_def env_at_def invalid_credentials_def
      UserLogin_valid_def Let_def)

text \<open>
  C3 (as amended). \<open>login\<close> ends with the result of the credential check when every
  write of the call succeeds. When the write of the audit row fails, the exception of
  \<open>db.commit()\<close> leaves \<open>login\<close>, whatever the credentials: nothing catches it.
\<close>

theorem audit_failure_surfaces:
  "(audit_write_fails env \<longrightarrow>
      fst (login sec settings db env username password ip ua) = Raised CommitFailed)
   \<and> (\<not> audit_write_fails env \<and> \<not> event_write_fails env \<and> \<not> user_write_fails env \<longrightarrow>
      fst (login sec settings db env username password ip ua) =
        credential_outcome sec settings db username password)"
proof (cases "find (\<lambda>u. u_username u = username) (users db)")
  case None
  then show ?thesis
    by (simp add: login_unknown_user credential_outcome_def)
next
  case (Some user)
  show ?thesis
  proof (cases "u_is_active user")
    case False
    with Some show ?thesis
      by (simp add: login_inactive credential_outcome_def)
  next
    case True
    show ?thesis
    proof (cases "verify_password sec password (u_password_hash user)")
      case False
      with Some True show ?thesis
        by (simp add: login_wrong_password credential_outcome_def)
    next
      case v: True
      with Some True show ?thesis
        by (simp add: login_success)
    qed
  qed
qed

theorem audit_failure_surfaces_witness:
  "audit_write_fails failing_audit_env
   \<and> fst (login test_security default_settings alice_db failing_audit_env ''alice'' ''secret''
            ''10.0.0.1'' ''agent'') = Raised CommitFailed
   \<and> \<not> audit_write_fails (env_at 0) \<and> \<not> event_write_fails (env_at 0)
   \<and> \<not> user_write_fails (env_at 0)
   \<and> fst (login test_security default_settings alice_db (env_at 0) ''alice'' ''secret''
            ''10.0.0.1'' ''agent'') =
       Returned \<lparr>access_token = ''access'', refresh_token = ''refresh'',
                 token_type = ''bearer'', expires_in = 1800\<rparr>"
proof -
  have c: "credential_outcome test_security default_settings alice_db ''alice'' ''secret'' =
      Returned \<lparr>access_token = ''access'', refresh_token = ''refresh'',
                 token_type = ''bearer'', expires_in = 1800\<rparr>"
    by (simp add: credential_outcome_def alice_db_def alice_def test_security_def
        plain_verify_def fixed_token_pair_def default_settings_def)
  show ?thesis
    using c
      audit_failure_surfaces [of failing_audit_env test_security default_settings alice_db
        "''alice''" "''secret''" "''10.0.0.1''" "''agent''"]
      audit_failure_surfaces [of "env_at 0" test_security default_settings alice_db
        "''alice''" "''secret''" "''10.0.0.1''" "''agent''"]
    by (simp add: failing_audit_env_def env_at_def)
qed

text \<open>
  C3 as stated fails: with Alice's right password, the call in which the audit write
  fails raises, and the call in which it succeeds returns the token.
\<close>

theorem audit_failure_counterexample:
  "fst (login test_security default_settings alice_db failing_audit_env ''alice'' ''secret''
          ''10.0.0.1'' ''agent'') = Raised CommitFailed
   \<and> fst (login test_security default_settings alice_db (env_at 0) ''alice'' ''secret''
          ''10.0.0.1'' ''agent'') =
       Returned \<lparr>access_token = ''access'', refresh_token = ''refresh'',
                 token_type = ''bearer'', expires_in = 1800\<rparr>
   \<and> fst (login test_security default_settings alice_db failing_audit_env ''alice'' ''secret''
          ''10.0.0.1'' ''agent'') \<noteq>
     fst (login test_security default_settings alice_db (env_at 0) ''alice'' ''secret''
          ''10.0.0.1'' ''agent'')"
  by (simp add: login_def log_login_attempt_def alice_db_def alice_def test_security_def
      plain_verify_def fixed_token_pair_def default_settings_def failing_audit_env_def
      env_at_def Let_def)

lemma wrong_password_step:
  assumes "find (\<lambda>u. u_username u = username) (users db) = Some user" "u_is_active user"
    "\<not> verify_password sec password (u_password_hash user)"
    "\<not> audit_write_fails env" "\<not> event_write_fails env"
  shows "snd (login sec settings db env username password ip ua) =
     (let db1 = db\<lparr>login_audit_logs := login_audit_logs db @
                   [\<lparr>log_user_id = Some (u_id user), log_username = username,
                     log_login_time = audit_time env, log_ip_address = ip,
                     log_user_agent = ua, log_success = False,
                     log_failure_reason = Some ''Invalid password'',
                     log_session_id = None\<rparr>]\<rparr>;
          n = recent_failures_count db1 username (utcnow env)
      in if MAX_LOGIN_ATTEMPTS settings \<le> n
         then db1\<lparr>auth_security_events := auth_security_events db1 @
                [\<lparr>ev_event_type = ''brute_force_attempt'', ev_severity = ''high'',
                  ev_description =
                    ''Multiple failed login attempts detected for user: '' @ username,
                  ev_triggered_by = Some (u_id user), ev_ip_address = ip,
                  ev_user_agent = ua, ev_timestamp = event_time env,
                  ev_metadata = Some [(''failed_attempts'', n + 1)]\<rparr>]\<rparr>
         else db1)"
  using assms
  by (simp add: login_def log_login_attempt_def create_security_event_def Let_def)

lemma alice_step:
  assumes "users db = [alice]"
  shows "snd (login test_security default_settings db (env_at t) ''alice'' ''guess1'' ip ua) =
     (let db1 = db\<lparr>login_audit_logs := login_audit_logs db @
                   [\<lparr>log_user_id = Some 1, log_username = ''alice'',
                     log_login_time = t, log_ip_address = ip,
                     log_user_agent = ua, log_success = False,
                     log_failure_reason = Some ''Invalid password'',
                     log_session_id = None\<rparr>]\<rparr>;
          n = recent_failures_count db1 ''alice'' t
      in if 5 \<le> n
         then db1\<lparr>auth_security_events := auth_security_events db1 @
                [\<lparr>ev_event_type = ''brute_force_attempt'', ev_severity = ''high'',
                  ev_description =
                    ''Multiple failed login attempts detected for user: alice'',
                  ev_triggered_by = Some 1, ev_ip_address = ip,
                  ev_user_agent = ua, ev_timestamp = t,
                  ev_metadata = Some [(''failed_attempts'', n + 1)]\<rparr>]\<rparr>
         else db1)"
proof -
  have f: "find (\<lambda>u. u_username u = ''alice'') (users db) = Some alice"
    using assms by (simp add: alice_def)
  have a: "u_is_active alice" by (simp add: alice_def)
  have v: "\<not> verify_password test_security ''guess1'' (u_password_hash alice)"
    by (simp add: alice_def test_security_def plain_verify_def)
  have w: "\<not> audit_write_fails (env_at t)" "\<not> event_write_fails (env_at t)"
    by (simp_all add: env_at_def)
  show ?thesis
    using wrong_password_step [OF f a v w, of default_settings ip ua]
    by (simp add: default_settings_def env_at_def alice_def Let_def)
qed

lemma same_day: 
  "replace_hms_zero 122400000000 = 86400000000"
  "replace_hms_zero 122401000000 = 86400000000"
  "replace_hms_zero 122402000000 = 86400000000"
  "replace_hms_zero 122403000000 = 86400000000"
  "replace_hms_zero 122404000000 = 86400000000"
  by (simp_all add: replace_hms_zero_def)

text \<open>
  C1. Alice's account is active and the audit table is empty. Five logins with a wrong
  password (one that passes the request validation) follow, one second apart on one UTC day. After the fourth there is no
  \<open>brute_force_attempt\<close> event. The fifth counts five failed attempts today, its own
  among them (the audit row is committed before the count), and emits one event, whose
  metadata says \<open>failed_attempts = 6\<close>: the code stores the count plus one.
\<close>

theorem fifth_failure_reports_six:
  "UserLogin_valid ''alice'' ''guess1''
   \<and> brute_force_events (attempts test_security default_settings alice_db ''alice'' ''guess1''
      [env_at 122400000000, env_at 122401000000, env_at 122402000000, env_at 122403000000])
     = []
   \<and> recent_failures_count (attempts test_security default_settings alice_db ''alice'' ''guess1''
      [env_at 122400000000, env_at 122401000000, env_at 122402000000, env_at 122403000000,
       env_at 122404000000]) ''alice'' 122404000000 = 5
   \<and> map ev_metadata
       (brute_force_events (attempts test_security default_settings alice_db ''alice'' ''guess1''
         [env_at 122400000000, env_at 122401000000, env_at 122402000000, env_at 122403000000,
          env_at 122404000000]))
     = [Some [(''failed_attempts'', 6)]]"
  by (simp add: alice_db_def alice_step recent_failures_count_def same_day Let_def
      brute_force_events_def UserLogin_valid_def)

text \<open>
  The day's lower bound keeps the microseconds of the current time, so a failure logged
  in the first instants of the day is not counted by a later attempt whose clock shows
  more microseconds: here the fifth attempt counts four and emits no event.
\<close>

lemma early_failure_not_counted:
  "brute_force_events (attempts test_security default_settings alice_db ''alice'' ''guess1''
      [env_at 86400000100, env_at 86401000500, env_at 86402000500, env_at 86403000500,
       env_at 86404000500]) = []"
proof -
  have d: "replace_hms_zero 86400000100 = 86400000100"
    "replace_hms_zero 86401000500 = 86400000500"
    "replace_hms_zero 86402000500 = 86400000500"
    "replace_hms_zero 86403000500 = 86400000500"
    "replace_hms_zero 86404000500 = 86400000500"
    by (simp_all add: replace_hms_zero_def)
  show ?thesis
    by (simp add: alice_db_def alice_step recent_failures_count_def d Let_def
        brute_force_events_def)
qed

section \<open>Float arithmetic of the p95 index\<close>

text \<open>
  \<open>floor_log2\<close> finds the binade of a positive rational, so \<open>round_double\<close> rounds to
  a multiple of the unit in the last place with an error of at most half a unit. From
  this: a Python int below \<open>2^53\<close> converts to float exactly, and for a length \<open>n\<close>
  below \<open>2^48\<close> the float product \<open>n * 0.95\<close> truncates to \<open>19 * n div 20\<close>, the
  floor of the exact \<open>0.95 * n\<close>.
\<close>

lemma bit_length_pos: "0 < n \<Longrightarrow> bit_length n = Suc (bit_length (n div 2))"
  by (subst bit_length.simps) simp

lemma bit_length_bounds:
  "0 < n \<Longrightarrow> n < 2 * 2 ^ (bit_length n - 1) \<and> 2 ^ (bit_length n - 1) \<le> n"
proof (induction n rule: bit_length.induct)
  case (1 n)
  show ?case
  proof (cases "n div 2 = 0")
    case True
    with "1.prems" have "n = 1" by (simp add: div_eq_0_iff) 
    then show ?thesis by (simp add: bit_length.simps)
  next
    case False
    then have pos: "0 < n div 2" by simp
    from "1.IH" [OF _ pos] "1.prems"
    have ih: "2 ^ (bit_length (n div 2) - 1) \<le> n div 2"
      "n div 2 < 2 * 2 ^ (bit_length (n div 2) - 1)"
      by auto
    have "bit_length n - 1 = Suc (bit_length (n div 2) - 1)"
      using bit_length_pos [OF "1.prems"] bit_length_pos [OF pos] by simp
    then have e: "(2::nat) ^ (bit_length n - 1) = 2 * 2 ^ (bit_length (n div 2) - 1)"
      by simp
    have "2 * (n div 2) \<le> n" "n < 2 * (n div 2) + 2" by linarith+
    with ih show ?thesis unfolding e by linarith
  qed
qed

lemma floor_log2_bounds:
  assumes "0 < x"
  shows "2 powi floor_log2 x \<le> x \<and> x < 2 powi (floor_log2 x + 1)"
proof -
  obtain p q where pq: "quotient_of x = (p, q)" by (cases "quotient_of x")
  then have q: "0 < q" and x: "x = of_int p / of_int q"
    by (auto simp: quotient_of_denom_pos quotient_of_div)
  have p: "0 < p"
    using assms q x by (simp add: zero_less_divide_iff)
  define a where "a = bit_length (nat p) - 1"
  define b where "b = bit_length (nat q) - 1"
  define P Q A B :: rat where "P = of_int p" and "Q = of_int q" and "A = 2 ^ a" and "B = 2 ^ b"
  have "nat p < 2 * 2 ^ a" "2 ^ a \<le> nat p"
    using bit_length_bounds [of "nat p"] p by (auto simp: a_def)
  then have "rat_of_nat (nat p) < of_nat (2 * 2 ^ a)" "rat_of_nat (2 ^ a) \<le> of_nat (nat p)"
    by (simp_all only: of_nat_less_iff of_nat_le_iff)
  then have PA: "P < 2 * A" "A \<le> P"
    using p by (simp_all add: P_def A_def)
  have "nat q < 2 * 2 ^ b" "2 ^ b \<le> nat q"
    using bit_length_bounds [of "nat q"] q by (auto simp: b_def)
  then have "rat_of_nat (nat q) < of_nat (2 * 2 ^ b)" "rat_of_nat (2 ^ b) \<le> of_nat (nat q)"
    by (simp_all only: of_nat_less_iff of_nat_le_iff)
  then have QB: "Q < 2 * B" "B \<le> Q"
    using q by (simp_all add: Q_def B_def)
  have pos: "0 < A" "0 < B" "0 < P" "0 < Q"
    using p q by (simp_all add: A_def B_def P_def Q_def)
  define d where "d = int (bit_length (nat p)) - int (bit_length (nat q))"
  have "bit_length (nat p) = Suc a" "bit_length (nat q) = Suc b"
    using p q bit_length_pos [of "nat p"] bit_length_pos [of "nat q"]
    by (simp_all add: a_def b_def)
  then have d: "d = int a - int b" by (simp add: d_def)
  have pd: "2 powi d = A / B"
    unfolding d A_def B_def by (simp add: power_int_diff)
  have pd1: "2 powi (d + 1) = 2 * A / B"
    using pd by (simp add: power_int_add)
  have pdm: "2 powi (d - 1) = A / (2 * B)"
    using pd by (simp add: power_int_diff)
  have xPQ: "x = P / Q" by (simp add: x P_def Q_def)
  have "P * B < 2 * A * Q"
  proof -
    have "P * B < 2 * A * B" using PA(1) pos by simp
    also have "\<dots> \<le> 2 * A * Q" using QB(2) pos by simp
    finally show ?thesis .
  qed
  then have up: "x < 2 powi (d + 1)"
    unfolding pd1 xPQ using pos by (simp add: field_simps)
  have "A * Q \<le> P * (2 * B)"
  proof -
    have "A * Q \<le> P * Q" using PA(2) pos by simp
    also have "\<dots> \<le> P * (2 * B)" using QB(1) pos by simp
    finally show ?thesis .
  qed
  then have lo: "2 powi (d - 1) \<le> x"
    unfolding pdm xPQ using pos by (simp add: field_simps)
  have fl: "floor_log2 x = (if 2 powi d \<le> x then d else d - 1)"
    by (simp add: floor_log2_def pq d_def Let_def)
  show ?thesis
    using up lo unfolding fl by auto
qed

lemma round_half_even_near:
  assumes "of_int z - 1 / 2 < y" and "y < of_int z + 1 / 2"
  shows "round_half_even y = z"
proof (cases "of_int z \<le> y")
  case True
  then have "\<lfloor>y\<rfloor> = z" using assms(2) by (simp add: floor_eq_iff)
  then show ?thesis using assms(2) by (simp add: round_half_even_def)
next
  case False
  then have "\<lfloor>y\<rfloor> = z - 1" using assms(1) by (simp add: floor_eq_iff)
  then show ?thesis using assms(1) False by (simp add: round_half_even_def)
qed

lemma round_half_even_of_int: "round_half_even (of_int z) = z"
  by (rule round_half_even_near) simp_all

lemma round_half_even_error:
  "of_int (round_half_even y) \<le> y + 1 / 2 \<and> y - 1 / 2 \<le> of_int (round_half_even y)"
proof -
  define f where "f = \<lfloor>y\<rfloor>"
  have b: "of_int f \<le> y" "y < of_int f + 1" unfolding f_def by linarith+
  have r: "round_half_even y =
      (if y - of_int f < 1 / 2 then f
       else if 1 / 2 < y - of_int f then f + 1
       else if even f then f else f + 1)"
    by (simp add: round_half_even_def f_def)
  consider "y - of_int f < 1 / 2" | "1 / 2 < y - of_int f" | "y - of_int f = 1 / 2"
    by linarith
  then show ?thesis
  proof cases
    case 1
    then have "round_half_even y = f" by (simp add: r)
    then show ?thesis using b 1 by simp
  next
    case 2
    then have "round_half_even y = f + 1" by (simp add: r)
    then show ?thesis using b 2 by simp
  next
    case 3
    then have "round_half_even y = f \<or> round_half_even y = f + 1" by (simp add: r)
    then show ?thesis using b 3 by auto
  qed
qed

lemma round_double_pos:
  assumes "0 < x"
  obtains j where "round_double x = of_int (round_half_even (x / 2 powi j)) * 2 powi j"
    and "2 powi (j + 52) \<le> x" and "x < 2 powi (j + 53)"
proof
  let ?j = "floor_log2 x - 52"
  show "round_double x = of_int (round_half_even (x / 2 powi ?j)) * 2 powi ?j"
    using assms by (simp add: round_double_def Let_def)
  show "2 powi (?j + 52) \<le> x" "x < 2 powi (?j + 53)"
    using floor_log2_bounds [OF assms] by (simp_all add: add.commute)
qed

lemma round_double_095:
  "round_double (19 / 20) = 4278419646001971 / 4503599627370496"
  by code_simp

lemma float_of_int_exact:
  assumes "0 \<le> n" and "n < 2 ^ 53"
  shows "float_of_int n = of_int n"
proof (cases "n = 0")
  case True
  then show ?thesis by (simp add: float_of_int_def round_double_def)
next
  case False
  with assms have pos: "0 < rat_of_int n" by simp
  from round_double_pos [OF pos] obtain j where
    r: "round_double (of_int n) = of_int (round_half_even (of_int n / 2 powi j)) * 2 powi j"
    and lo: "2 powi (j + 52) \<le> rat_of_int n" by blast
  have "rat_of_int n < 2 powi 53" using assms(2)
    by (metis of_int_less_iff of_int_numeral of_int_power power_int_numeral)
  with lo have "(2::rat) powi (j + 52) < 2 powi 53" by linarith
  then have "j + 52 < 53" by (rule power_int_le_imp_less_exp [rotated]) simp_all
  then have j: "j \<le> 0" by simp
  define k where "k = nat (- j)"
  have u: "(2::rat) powi j = 1 / 2 ^ k"
    using j by (simp add: k_def power_int_def field_simps)
  have "rat_of_int n / 2 powi j = of_int (n * 2 ^ k)"
    by (simp add: u)
  then have "round_half_even (of_int n / 2 powi j) = n * 2 ^ k"
    by (simp only: round_half_even_of_int)
  then show ?thesis
    by (simp add: float_of_int_def r u)
qed

lemma p95_index_eq:
  assumes "n < 2 ^ 48"
  shows "p95_index n = int (19 * n div 20)"
proof (cases "n = 0")
  case True
  then show ?thesis
    by (simp add: p95_index_def float_of_int_def float_mul_def round_double_def py_int_def)
next
  case False
  define N :: rat where "N = of_nat n"
  define m where "m = 19 * n div 20"
  define r where "r = 19 * n mod 20"
  define M :: rat where "M = of_nat m"
  define x :: rat where "x = N * (4278419646001971 / 4503599627370496)"
  have Npos: "0 < N" using False by (simp add: N_def)
  have "rat_of_nat n < of_nat (2 ^ 48)" using assms by (simp only: of_nat_less_iff)
  then have Nlt: "N < 281474976710656" by (simp add: N_def)
  have "int n < 2 ^ 53" using assms by (simp add: order_less_trans [where y = "2 ^ 48"])
  then have fi: "float_of_int (int n) = N"
    using float_of_int_exact [of "int n"] by (simp add: N_def)
  have idx: "p95_index n = py_int (round_double x)"
    by (simp add: p95_index_def fi round_double_095 float_mul_def x_def)
  have xN: "x = 19 * N / 20 - N / 22517998136852480"
    by (simp add: x_def)
  have xpos: "0 < x" using Npos by (simp add: x_def)
  have "19 * n = 20 * m + r" by (simp add: m_def r_def)
  then have "rat_of_nat (19 * n) = of_nat (20 * m + r)" by simp
  then have dec: "19 * N = 20 * M + of_nat r" by (simp add: N_def M_def)
  have rlt: "r < 20" by (simp add: r_def)
  from round_double_pos [OF xpos] obtain j where
    rd: "round_double x = of_int (round_half_even (x / 2 powi j)) * 2 powi j"
    and lo: "2 powi (j + 52) \<le> x" and hi: "x < 2 powi (j + 53)" by blast
  have "x < 2 powi 48" using xN Npos Nlt by simp
  with lo have "(2::rat) powi (j + 52) < 2 powi 48" by linarith
  then have "j + 52 < 48" by (rule power_int_le_imp_less_exp [rotated]) simp_all
  then have j: "j \<le> - 5" by simp
  define k where "k = nat (- j)"
  define U :: rat where "U = 2 ^ k"
  have k5: "5 \<le> k" using j by (simp add: k_def)
  have "(2::rat) ^ 5 \<le> 2 ^ k" using k5 by (intro power_increasing) simp_all
  then have U32: "32 \<le> U" by (simp add: U_def)
  have u: "(2::rat) powi j = 1 / U"
    using j by (simp add: k_def U_def power_int_def field_simps)
  have Upos: "0 < U" using U32 by simp
  have "(2::rat) powi (j + 53) = 2 powi 53 * 2 powi j" by (simp add: power_int_add)
  then have "(2::rat) powi (j + 53) = 9007199254740992 / U" by (simp add: u)
  with hi have "x < 9007199254740992 / U" by simp
  then have hiU: "x * U < 9007199254740992"
    using Upos by (simp only: pos_less_divide_eq)
  define \<rho> :: rat where "\<rho> = of_int (round_half_even (x * U))"
  have R: "round_double x = \<rho> / U" by (simp add: rd u \<rho>_def)
  have err: "\<rho> \<le> x * U + 1 / 2" "x * U - 1 / 2 \<le> \<rho>"
    using round_half_even_error [of "x * U"] by (simp_all add: \<rho>_def)
  have Mrange: "M \<le> round_double x \<and> round_double x < M + 1"
  proof (cases "r = 0")
    case True
    with dec have MN: "20 * M = 19 * N" by simp
    have z: "rat_of_int (int m * 2 ^ k) = M * U" by (simp add: M_def U_def)
    have d1: "4 * N / 5 \<le> x" using xN Npos by simp
    have "4 * N / 5 * U \<le> x * U"
      using d1 Upos by (intro mult_right_mono) simp_all
    with hiU have "4 * N / 5 * U < 9007199254740992" by linarith
    then have dU': "N * U / 22517998136852480 < 1 / 2" by simp
    have "x = M - N / 22517998136852480" using xN MN by linarith
    then have xU: "x * U = M * U - N * U / 22517998136852480"
      by (simp add: left_diff_distrib)
    have NU: "0 < N * U" using Npos Upos by simp
    have "rat_of_int (int m * 2 ^ k) - 1 / 2 < x * U"
      unfolding z xU using dU' by linarith
    moreover have "x * U < rat_of_int (int m * 2 ^ k) + 1 / 2"
      unfolding z xU using NU by linarith
    ultimately have "round_half_even (x * U) = int m * 2 ^ k"
      by (rule round_half_even_near)
    then have "\<rho> = M * U" by (simp add: \<rho>_def M_def U_def)
    then have "round_double x = M" using U32 by (simp add: R)
    then show ?thesis by simp
  next
    case False
    define rq :: rat where "rq = of_nat r"
    have "1 \<le> r" "r \<le> 19" using False rlt by simp_all
    then have "rat_of_nat 1 \<le> of_nat r" "rat_of_nat r \<le> of_nat 19"
      by (simp_all only: of_nat_le_iff)
    then have rb: "1 \<le> rq" "rq \<le> 19" by (simp_all add: rq_def)
    have dec': "19 * N = 20 * M + rq" using dec by (simp add: rq_def)
    have xb: "M + 3 / 80 \<le> x" "x \<le> M + 19 / 20"
      using dec' xN Nlt Npos rb by linarith+
    have "(M + 3 / 80) * U \<le> x * U" "x * U \<le> (M + 19 / 20) * U"
      using xb U32 by (simp_all only: mult_right_mono) 
    then have "M * U + 3 / 80 * U \<le> x * U" "x * U \<le> M * U + U - U / 20"
      by (simp_all add: algebra_simps)
    with err U32 have "M * U \<le> \<rho>" "\<rho> < (M + 1) * U"
      by (simp_all add: algebra_simps)
    then show ?thesis using U32 by (simp add: R pos_le_divide_eq pos_divide_less_eq)
  qed
  have "0 \<le> M" by (simp add: M_def)
  with Mrange have "py_int (round_double x) = \<lfloor>round_double x\<rfloor>"
    by (simp add: py_int_def)
  also have "\<dots> = int m"
    using Mrange by (simp add: floor_eq_iff M_def)
  finally show ?thesis by (simp add: idx m_def)
qed

lemma floor_095: "nat \<lfloor>95 / 100 * rat_of_nat n\<rfloor> = 19 * n div 20"
proof -
  have "95 / 100 * rat_of_nat n = of_nat (19 * n) / of_nat 20" by simp
  then have "\<lfloor>95 / 100 * rat_of_nat n\<rfloor> = int (19 * n div 20)"
    by (simp only: floor_divide_of_nat_eq)
  then show ?thesis by simp
qed

lemma ten_to_thousand_sorted:
  "sort (map (\<lambda>i. 10 * rat_of_nat i) [1..<101]) = map (\<lambda>i. 10 * rat_of_nat i) [1..<101]"
proof -
  have "sorted_wrt (\<lambda>x y. 10 * rat_of_nat x \<le> 10 * rat_of_nat y) [1..<101]"
    by (rule sorted_wrt_mono_rel [OF _ sorted_wrt_upt]) simp
  then have "sorted (map (\<lambda>i. 10 * rat_of_nat i) [1..<101])"
    by (simp only: sorted_map)
  then show ?thesis by (rule sort_key_id_if_sorted [where f = "\<lambda>x. x", simplified])
qed

text \<open>
  C6. For a non-empty window (of fewer than \<open>2^48\<close> samples, far more than a process
  can hold) the p95 is the element of the sorted window at index \<open>floor(0.95 * len)\<close>,
  the last element if that index were out of range. After recording the 100 samples
  10, 20, ..., 1000 into a tracker of capacity 100 the p95 is 960, the element at sorted
  index 95.
\<close>

theorem p95_is_sorted_index:
  assumes "items (latencies_ms t) \<noteq> []" and "length (items (latencies_ms t)) < 2 ^ 48"
  shows "get_p95_latency_ms t =
           Inr (let s = sort (items (latencies_ms t));
                    i = nat \<lfloor>95 / 100 * rat_of_nat (length s)\<rfloor>
                in if i < length s then s ! i else last s)
       \<and> (case LatencyTracker_init 100 50 of
            Inl e \<Rightarrow> Inl e
          | Inr t0 \<Rightarrow> get_p95_latency_ms
                       (record_all t0 (map (\<lambda>i. 10 * rat_of_nat i) [1..<101]))) = Inr 960
       \<and> sort (map (\<lambda>i. 10 * rat_of_nat i) [1..<101]) ! 95 = 960"
proof -
  let ?xs = "items (latencies_ms t)"
  have lt: "19 * length ?xs div 20 < length ?xs"
    using assms(1) by (cases ?xs) simp_all
  have g: "get_p95_latency_ms t = Inr (sort ?xs ! (19 * length ?xs div 20))"
    using assms lt
    by (simp add: get_p95_latency_ms_def Let_def p95_index_eq getitem_def)
  have a: "get_p95_latency_ms t =
           Inr (let s = sort ?xs; i = nat \<lfloor>95 / 100 * rat_of_nat (length s)\<rfloor>
                in if i < length s then s ! i else last s)"
    using lt by (simp only: g Let_def floor_095 length_sort if_True)
  let ?ys = "map (\<lambda>i. 10 * rat_of_nat i) [1..<101]"
  let ?t0 = "\<lparr>window_size = 100, sla_threshold_ms = 50,
        latencies_ms = \<lparr>maxlen = 100, items = []\<rparr>,
        total_requests = 0, sla_breaches = 0\<rparr>"
  have i: "LatencyTracker_init 100 50 = Inr ?t0"
    by (simp add: LatencyTracker_init_def deque_new_def)
  have w: "items (latencies_ms (record_all ?t0 ?ys)) = ?ys"
    using record_all_window [of ?t0 ?ys] by simp
  have n: "sort ?ys ! 95 = 960"
    unfolding ten_to_thousand_sorted by simp
  have "get_p95_latency_ms (record_all ?t0 ?ys) = Inr (sort ?ys ! 95)"
    using w
    by (simp add: get_p95_latency_ms_def Let_def p95_index_eq getitem_def del: upt_Suc)
  then have b: "(case LatencyTracker_init 100 50 of
            Inl e \<Rightarrow> Inl e
          | Inr t0 \<Rightarrow> get_p95_latency_ms (record_all t0 ?ys)) = Inr 960"
    by (simp only: i n sum.case)
  show ?thesis using a b n by blast
qed

theorem p95_is_sorted_index_witness:
  "items (latencies_ms \<lparr>window_size = 100, sla_threshold_ms = 50,
        latencies_ms = \<lparr>maxlen = 100, items = [30, 10, 20]\<rparr>,
        total_requests = 3, sla_breaches = 0\<rparr>) \<noteq> []
   \<and> length (items (latencies_ms \<lparr>window_size = 100, sla_threshold_ms = 50,
        latencies_ms = \<lparr>maxlen = 100, items = [30, 10, 20]\<rparr>,
        total_requests = 3, sla_breaches = 0\<rparr>)) < 2 ^ 48
   \<and> get_p95_latency_ms \<lparr>window_size = 100, sla_threshold_ms = 50,
        latencies_ms = \<lparr>maxlen = 100, items = [30, 10, 20]\<rparr>,
        total_requests = 3, sla_breaches = 0\<rparr> = Inr 30"
proof -
  let ?t = "\<lparr>window_size = 100, sla_threshold_ms = 50,
        latencies_ms = \<lparr>maxlen = 100, items = [30, 10, 20]\<rparr>,
        total_requests = 3, sla_breaches = 0\<rparr>"
  have h1: "items (latencies_ms ?t) \<noteq> []" by simp
  have h2: "length (items (latencies_ms ?t)) < 2 ^ 48" by simp
  have f: "\<lfloor>57 / 20 :: rat\<rfloor> = 2"
    by (simp add: floor_eq_iff)
  show ?thesis
    using h1 h2 p95_is_sorted_index [OF h1 h2]
    by (simp add: Let_def f)
qed

end
